theory Spec2Isabelle
  imports Complex_Main
begin

section \<open>Raw input values\<close>

text \<open>
  The parser receives values of Flow type \<open>mixed\<close>: whatever \<open>JSON.parse\<close> produces, plus
  \<open>undefined\<close> (an index read past the end of an array) and values that are none of these
  (a function, a symbol). Numbers are the finite numbers a JSON text can denote; the code
  only reads their type and compares them with \<open>>\<close> and \<open><\<close>, which on finite numbers is the
  order of the reals.
\<close>

datatype mixed =
    JNull
  | JUndefined
  | JBool bool
  | JNum real
  | JStr string
  | JArr "mixed list"
  | JObj "(string \<times> mixed) list"
  | JFunction

text \<open>\<open>typeof x === 'number'\<close>, \<open>Array.isArray(x)\<close> and array indexing \<open>xs[i]\<close>
  (which is \<open>undefined\<close> out of range).\<close>

fun is_number :: "mixed \<Rightarrow> bool" where
  "is_number (JNum _) = True"
| "is_number _ = False"

fun the_number :: "mixed \<Rightarrow> real" where
  "the_number (JNum x) = x"
| "the_number _ = 0"

fun isArray :: "mixed \<Rightarrow> bool" where
  "isArray (JArr _) = True"
| "isArray _ = False"

fun elements :: "mixed \<Rightarrow> mixed list" where
  "elements (JArr xs) = xs"
| "elements _ = []"

definition at_index :: "mixed list \<Rightarrow> nat \<Rightarrow> mixed" where
  "at_index xs i = (if i < length xs then xs ! i else JUndefined)"

section \<open>Types\<close>

text \<open>
  Modelled from the spec: the module \<open>types.js\<close> (the constants \<open>NullType\<close> \<dots> \<open>ValueType\<close>,
  the constructor \<open>array\<close> and \<open>toString\<close>) is not among the sources. The spec gives the
  closed variant below. The \<open>kind\<close> tag of each type is the string that \<open>checkSubtype\<close>
  compares: it tests for \<open>'Error'\<close>, \<open>'Value'\<close> and \<open>'Array'\<close> and otherwise compares the tags
  of the two types, so the tags are the capitalised variant names. \<open>N\<close> is the fixed length
  of an array type, \<open>None\<close> when unconstrained.
\<close>

datatype ty =
    NullType
  | NumberType
  | StringType
  | BooleanType
  | ObjectType
  | ColorType
  | ValueType
  | ErrorType
  | Array ty "nat option"

fun kind :: "ty \<Rightarrow> string" where
  "kind NullType = ''Null''"
| "kind NumberType = ''Number''"
| "kind StringType = ''String''"
| "kind BooleanType = ''Boolean''"
| "kind ObjectType = ''Object''"
| "kind ColorType = ''Color''"
| "kind ValueType = ''Value''"
| "kind ErrorType = ''Error''"
| "kind (Array _ _) = ''Array''"

text \<open>The properties \<open>itemType\<close> and \<open>N\<close>, which only array types have (\<open>undefined\<close>, here
  \<open>None\<close>, on every other type).\<close>

fun itemType :: "ty \<Rightarrow> ty option" where
  "itemType (Array t _) = Some t"
| "itemType _ = None"

fun N :: "ty \<Rightarrow> nat option" where
  "N (Array _ n) = n"
| "N _ = None"

text \<open>
  What the field \<open>expectedType\<close> of a context can hold at run time. Flow declares it
  \<open>?Type\<close>, but \<open>Curve.parse\<close> calls \<open>context.concat(i, 'curve')\<close>, and \<open>concat\<close>'s second
  parameter is the expected type: the string lands in the field. A string has no property
  \<open>kind\<close> (reading it gives \<open>undefined\<close>).
\<close>

datatype tyval = TypeV ty | StrV string

fun kind_of :: "tyval \<Rightarrow> string option" where
  "kind_of (TypeV t) = Some (kind t)"
| "kind_of (StrV _) = None"

fun itemType_of :: "tyval \<Rightarrow> ty option" where
  "itemType_of (TypeV t) = itemType t"
| "itemType_of (StrV _) = None"

fun N_of :: "tyval \<Rightarrow> nat option" where
  "N_of (TypeV t) = N t"
| "N_of (StrV _) = None"

text \<open>JavaScript truthiness of such a value: \<open>null\<close>/\<open>undefined\<close> and the empty string are
  falsy, objects and other strings are truthy.\<close>

fun truthy :: "tyval option \<Rightarrow> bool" where
  "truthy None = False"
| "truthy (Some (StrV s)) = (s \<noteq> [])"
| "truthy (Some (TypeV _)) = True"

section \<open>Expressions\<close>

datatype InterpolationType =
    Step
  | Linear
  | Exponential real
  | CubicBezier "real list"

fun interpolation_name :: "InterpolationType \<Rightarrow> string" where
  "interpolation_name Step = ''step''"
| "interpolation_name Linear = ''linear''"
| "interpolation_name (Exponential _) = ''exponential''"
| "interpolation_name (CubicBezier _) = ''cubic-bezier''"

text \<open>
  An expression is a \<open>Curve\<close> (key, type, interpolation, input, stops) or an expression of a
  kind supplied by the host through the registry. Of the latter the code here reads the
  \<open>type\<close> and calls \<open>serialize()\<close>; it is modelled by its key, its type and the value its
  \<open>serialize()\<close> returns.
\<close>

datatype expr =
    Curve string ty InterpolationType expr "(real \<times> expr) list"
  | External string ty mixed

fun type_of :: "expr \<Rightarrow> ty" where
  "type_of (Curve _ t _ _ _) = t"
| "type_of (External _ t _) = t"

fun key_of :: "expr \<Rightarrow> string" where
  "key_of (Curve k _ _ _ _) = k"
| "key_of (External k _ _) = k"

section \<open>Diagnostics\<close>

text \<open>
  The message of a diagnostic: one constructor for each message template of the source,
  with the values the template interpolates as arguments.
\<close>

datatype message =
    ExpectedButFound tyval ty
  | EmptyArray
  | NameMustBeString mixed
  | UnknownExpression string
  | UndefinedInvalid
  | BareObjectInvalid
  | ExpectedArrayButFound mixed
  | ExpectedAtLeast2Arguments nat
  | ExpectedInterpolationType mixed
  | ExponentialNeedsNumericBase
  | CubicBezierNeedsFourNumbers
  | UnknownInterpolationType mixed
  | StopLabelNotLiteralNumber
  | StopsNotAscending
  | NotInterpolatable ty string

datatype ParsingError = ParsingError string message

text \<open>
  The \<open>errors\<close> array is shared by reference between a context and all contexts derived
  from it. The store maps the address of such an array to its contents.
\<close>

type_synonym addr = nat
type_synonym heap = "addr \<Rightarrow> ParsingError list"

section \<open>Scope and parsing context\<close>

datatype Scope = Scope "Scope option" "string \<Rightarrow> expr option"

text \<open>The constructor assigns the bindings in order, so a later binding of a name
  overwrites an earlier one.\<close>

definition Scope_new :: "Scope option \<Rightarrow> (string \<times> expr) list \<Rightarrow> Scope" where
  "Scope_new parent bindings = Scope parent (map_of (rev bindings))"

definition Scope_concat :: "Scope \<Rightarrow> (string \<times> expr) list \<Rightarrow> Scope" where
  "Scope_concat this bindings = Scope_new (Some this) bindings"

text \<open>A registered expression kind: \<open>Curve\<close>, or a kind of the host, named by an
  identifier under which the host's parser is found.\<close>

datatype klass = CurveClass | ExternalClass string

record ParsingContext =
  definitions :: "string \<Rightarrow> klass option"
  path :: "nat list"
  key :: string
  scope :: Scope
  errors :: addr
  expectedType :: "tyval option"

text \<open>Decimal digits of a number, as a template literal prints an index.\<close>

definition digit :: "nat \<Rightarrow> char" where
  "digit d = ''0123456789'' ! d"

fun digits :: "nat \<Rightarrow> string" where
  "digits n = (if n < 10 then [digit n] else digits (n div 10) @ [digit (n mod 10)])"

definition bracket :: "nat \<Rightarrow> string" where
  "bracket part = ''['' @ digits part @ '']''"

text \<open>The constructor, with its five arguments given (as \<open>concat\<close> gives them; the
  defaults for omitted arguments are not needed here). The key prints the path.\<close>

definition ParsingContext_new ::
  "(string \<Rightarrow> klass option) \<Rightarrow> nat list \<Rightarrow> tyval option \<Rightarrow> Scope \<Rightarrow> addr \<Rightarrow> ParsingContext" where
  "ParsingContext_new defs p et sc errs =
     \<lparr> definitions = defs, path = p, key = concat (map bracket p),
       scope = sc, errors = errs, expectedType = et \<rparr>"

text \<open>\<open>concat(index, expectedType, bindings)\<close>: \<open>index\<close> is a number, so the path is
  extended; \<open>expectedType || null\<close> keeps a truthy value and turns anything else into
  \<open>null\<close>; an array of bindings (also an empty one) is truthy.\<close>

definition ParsingContext_concat ::
  "ParsingContext \<Rightarrow> nat \<Rightarrow> tyval option \<Rightarrow> (string \<times> expr) list option \<Rightarrow> ParsingContext" where
  "ParsingContext_concat this index et bindings =
     (let path' = path this @ [index];
          scope' = (case bindings of Some bs \<Rightarrow> Scope_concat (scope this) bs
                                   | None \<Rightarrow> scope this)
      in ParsingContext_new (definitions this) path' (if truthy et then et else None)
           scope' (errors this))"

text \<open>\<open>error(error, ...keys)\<close> pushes one \<open>ParsingError\<close> onto the shared array; it always
  returns \<open>null\<close>, so the model returns the new store only.\<close>

definition ParsingContext_error ::
  "ParsingContext \<Rightarrow> message \<Rightarrow> nat list \<Rightarrow> heap \<Rightarrow> heap" where
  "ParsingContext_error this msg keys h =
     h(errors this := h (errors this) @ [ParsingError (key this @ concat (map bracket keys)) msg])"

section \<open>The subtype checker\<close>

definition members :: "ty list" where
  "members = [NullType, NumberType, StringType, BooleanType, ColorType, ObjectType,
              Array ValueType None]"

text \<open>\<open>if (context) context.error(error)\<close>\<close>

definition report :: "ParsingContext option \<Rightarrow> message \<Rightarrow> heap \<Rightarrow> heap" where
  "report context msg h =
     (case context of None \<Rightarrow> h | Some c \<Rightarrow> ParsingContext_error c msg [] h)"

text \<open>
  \<open>checkSubtype(expected, t, context)\<close> returns \<open>null\<close> (\<open>None\<close>) when the type matches and
  the error message otherwise; the message is a non-empty string, hence truthy.
  \<open>checkMembers\<close> is the \<open>for\<close> loop over \<open>members\<close>: \<open>True\<close> when it returned from inside
  the loop. The recursive calls pass no context.
\<close>

function checkSubtype :: "tyval \<Rightarrow> ty \<Rightarrow> ParsingContext option \<Rightarrow> heap \<Rightarrow> message option \<times> heap"
  and checkMembers :: "ty list \<Rightarrow> ty \<Rightarrow> heap \<Rightarrow> bool \<times> heap"
where
  "checkSubtype expected t context h =
     (let error = ExpectedButFound expected t in
      if kind t = ''Error'' then (None, h)
      else if kind_of expected = Some ''Value'' then
        (if kind t = ''Value'' then (None, h)
         else (case checkMembers members t h of
                 (True, h') \<Rightarrow> (None, h')
               | (False, h') \<Rightarrow> (Some error, report context error h')))
      else if kind_of expected = Some ''Array'' then
        (if kind t = ''Array'' then
           (case checkSubtype (TypeV (the (itemType_of expected))) (the (itemType t)) None h of
              (Some itemError, h') \<Rightarrow> (Some error, report context error h')
            | (None, h') \<Rightarrow>
                if N_of expected \<noteq> None \<and> N_of expected \<noteq> N t
                then (Some error, report context error h')
                else (None, h'))
         else (Some error, report context error h))
      else if Some (kind t) = kind_of expected then (None, h)
      else (Some error, report context error h))"
| "checkMembers [] t h = (False, h)"
| "checkMembers (memberType # ms) t h =
     (case checkSubtype (TypeV memberType) t None h of
        (None, h') \<Rightarrow> (True, h')
      | (Some e, h') \<Rightarrow> checkMembers ms t h')"
  by pat_completeness auto

lemma kind_Array_iff: "kind t = ''Array'' \<longleftrightarrow> (\<exists>i n. t = Array i n)"
  by (cases t) auto

termination checkSubtype
  apply (relation "inv_image (less_than <*lex*> less_than)
     (\<lambda>x. case x of
        Inl (expected, t, context, h) \<Rightarrow>
          (size t, if kind_of expected = Some ''Value'' then 9 else 0)
      | Inr (ms, t, h) \<Rightarrow>
          (size t, length ms + 1 + (if \<exists>m\<in>set ms. kind m = ''Value'' then 9 else 0)))")
     apply (auto simp: members_def kind_Array_iff)
  done

declare checkSubtype.simps [simp del]

section \<open>The expression dispatcher and the curve parser\<close>

text \<open>
  The parsers of the host's expression kinds are outside the sources. The model takes them
  as a parameter: for the identifier of a kind, a function from the raw array, the context
  and the store to the value returned and the new store. Such a parser may itself parse
  sub-expressions; whatever it does, it is some function of this type.
\<close>

type_synonym host_parsers =
  "string \<Rightarrow> mixed list \<Rightarrow> ParsingContext \<Rightarrow> heap \<Rightarrow> expr option \<times> heap"

text \<open>
  \<open>Curve.parse\<close> declares \<open>outputType: Type\<close> but initialises it with the optional
  parameter. Were the loop over the stops to end with \<open>outputType\<close> still \<open>undefined\<close>,
  the code after the loop would read \<open>outputType.kind\<close> of \<open>undefined\<close> (a \<open>TypeError\<close>) or
  build a \<open>Curve\<close> without a type. The model makes that outcome a value of its own;
  \<open>parser_no_fault\<close> below shows that it never arises.
\<close>

datatype fault = NoOutputType

text \<open>\<open>expr === null || typeof expr === 'string' || typeof expr === 'boolean' ||
  typeof expr === 'number'\<close>\<close>

fun is_scalar :: "mixed \<Rightarrow> bool" where
  "is_scalar JNull = True"
| "is_scalar (JStr _) = True"
| "is_scalar (JBool _) = True"
| "is_scalar (JNum _) = True"
| "is_scalar _ = False"

text \<open>\<open>return context.error(msg, ...keys)\<close>: one diagnostic, and \<open>null\<close>.\<close>

definition fail ::
  "ParsingContext \<Rightarrow> message \<Rightarrow> nat list \<Rightarrow> heap \<Rightarrow> fault + ('a option \<times> heap)" where
  "fail context msg keys h = Inr (None, ParsingContext_error context msg keys h)"

text \<open>\<open>t => typeof t !== 'number' || t < 0 || t > 1\<close>\<close>

definition bad_control_point :: "mixed \<Rightarrow> bool" where
  "bad_control_point t = (\<not> is_number t \<or> the_number t < 0 \<or> the_number t > 1)"

text \<open>
  Lines 43 to 74 of \<open>curve.js\<close>: the interpolation argument becomes an
  \<open>InterpolationType\<close>, or a diagnostic (the message and the keys given to
  \<open>context.error\<close>).
\<close>

definition parse_interpolation :: "mixed \<Rightarrow> (message \<times> nat list) + InterpolationType" where
  "parse_interpolation interpolation =
     (if \<not> isArray interpolation \<or> length (elements interpolation) = 0
      then Inl (ExpectedInterpolationType interpolation, [1])
      else if at_index (elements interpolation) 0 = JStr ''step'' then Inr Step
      else if at_index (elements interpolation) 0 = JStr ''linear'' then Inr Linear
      else if at_index (elements interpolation) 0 = JStr ''exponential'' then
        (let base = at_index (elements interpolation) 1 in
         if \<not> is_number base then Inl (ExponentialNeedsNumericBase, [1, 1])
         else Inr (Exponential (the_number base)))
      else if at_index (elements interpolation) 0 = JStr ''cubic-bezier'' then
        (let controlPoints = drop 1 (elements interpolation) in
         if length controlPoints \<noteq> 4 \<or> list_ex bad_control_point controlPoints
         then Inl (CubicBezierNeedsFourNumbers, [1])
         else Inr (CubicBezier (map the_number controlPoints)))
      else Inl (UnknownInterpolationType (at_index (elements interpolation) 0), [1, 0]))"

text \<open>
  Lines 100 to 103: the condition under which the curve is rejected as not interpolatable,
  negated. \<open>curve.js\<close> compares the tag of the output type with \<open>'array'\<close>, in lower case.
\<close>

definition interpolatable :: "InterpolationType \<Rightarrow> ty \<Rightarrow> bool" where
  "interpolatable interpolation outputType =
     (\<not> (interpolation_name interpolation \<noteq> ''step'' \<and>
         outputType \<noteq> NumberType \<and>
         outputType \<noteq> ColorType \<and>
         \<not> (kind outputType = ''array'' \<and> itemType outputType = Some NumberType)))"

text \<open>
  \<open>parseExpression(expr, context)\<close>, \<open>Curve.parse(args, context, expectedType)\<close> and the
  loop of \<open>Curve.parse\<close> over \<open>rest\<close>, with the loop variables \<open>i\<close>, \<open>stops\<close> and
  \<open>outputType\<close> as arguments and what is left of \<open>rest\<close> from index \<open>i\<close> on.

  \<open>parseExpression\<close> has two parameters, so the third argument that \<open>Curve.parse\<close> passes
  (\<open>NumberType\<close>, \<open>outputType\<close>) is dropped, and the second argument of
  \<open>context.concat(2, 'curve')\<close> is taken as the expected type of the child context.
  \<open>parseExpression\<close> calls \<open>Expr.parse(expr, context)\<close>: the third parameter of
  \<open>Curve.parse\<close> is \<open>undefined\<close> there.
\<close>

function parseExpression ::
    "host_parsers \<Rightarrow> mixed \<Rightarrow> ParsingContext \<Rightarrow> heap \<Rightarrow> fault + (expr option \<times> heap)"
  and Curve_parse ::
    "host_parsers \<Rightarrow> mixed list \<Rightarrow> ParsingContext \<Rightarrow> ty option \<Rightarrow> heap
      \<Rightarrow> fault + (expr option \<times> heap)"
  and Curve_stops ::
    "host_parsers \<Rightarrow> ParsingContext \<Rightarrow> nat \<Rightarrow> (real \<times> expr) list \<Rightarrow> ty option
      \<Rightarrow> mixed list \<Rightarrow> heap \<Rightarrow> fault + (((real \<times> expr) list \<times> ty option) option \<times> heap)"
where
  "parseExpression ext expr0 context h =
     (let expr = (if is_scalar expr0 then JArr [JStr ''literal'', expr0] else expr0) in
      case expr of
        JArr xs \<Rightarrow>
          (case xs of
             [] \<Rightarrow> fail context EmptyArray [] h
           | op # _ \<Rightarrow>
               (case op of
                  JStr name \<Rightarrow>
                    (case definitions context name of
                       Some Expr \<Rightarrow>
                         (case (case Expr of
                                  CurveClass \<Rightarrow> Curve_parse ext xs context None h
                                | ExternalClass k \<Rightarrow> Inr (ext k xs context h)) of
                            Inl f \<Rightarrow> Inl f
                          | Inr (None, h1) \<Rightarrow> Inr (None, h1)
                          | Inr (Some parsed, h1) \<Rightarrow>
                              if truthy (expectedType context) then
                                (case checkSubtype (the (expectedType context)) (type_of parsed)
                                        (Some context) h1 of
                                   (Some e, h2) \<Rightarrow> Inr (None, h2)
                                 | (None, h2) \<Rightarrow> Inr (Some parsed, h2))
                              else Inr (Some parsed, h1))
                     | None \<Rightarrow> fail context (UnknownExpression name) [0] h)
                | _ \<Rightarrow> fail context (NameMustBeString op) [0] h))
      | JUndefined \<Rightarrow> fail context UndefinedInvalid [] h
      | JObj _ \<Rightarrow> fail context BareObjectInvalid [] h
      | _ \<Rightarrow> fail context (ExpectedArrayButFound expr) [] h)"
| "Curve_parse ext args0 context expectedT h =
     (let args = drop 1 args0 in
      if length args < 4 then fail context (ExpectedAtLeast2Arguments (length args)) [] h
      else
        (case parse_interpolation (at_index args 0) of
           Inl (msg, keys) \<Rightarrow> fail context msg keys h
         | Inr interpolation \<Rightarrow>
             (case parseExpression ext (at_index args 1)
                     (ParsingContext_concat context 2 (Some (StrV ''curve'')) None) h of
                Inl f \<Rightarrow> Inl f
              | Inr (None, h1) \<Rightarrow> Inr (None, h1)
              | Inr (Some input, h1) \<Rightarrow>
                  (case Curve_stops ext context 0 [] expectedT (drop 2 args) h1 of
                     Inl f \<Rightarrow> Inl f
                   | Inr (None, h2) \<Rightarrow> Inr (None, h2)
                   | Inr (Some (stops, None), h2) \<Rightarrow> Inl NoOutputType
                   | Inr (Some (stops, Some outputType), h2) \<Rightarrow>
                       if \<not> interpolatable interpolation outputType
                       then fail context
                              (NotInterpolatable outputType (interpolation_name interpolation)) [1] h2
                       else Inr (Some (Curve (key context) outputType interpolation input stops), h2)))))"
| "Curve_stops ext context i stops outputType [] h = Inr (Some (stops, outputType), h)"
| "Curve_stops ext context i stops outputType (label # rest) h =
     (let v = at_index rest 0 in
      if \<not> is_number label then fail context StopLabelNotLiteralNumber [i + 3] h
      else if stops \<noteq> [] \<and> fst (last stops) > the_number label
        then fail context StopsNotAscending [i + 3] h
      else
        (case parseExpression ext v
                (ParsingContext_concat context (i + 4) (Some (StrV ''curve'')) None) h of
           Inl f \<Rightarrow> Inl f
         | Inr (None, h1) \<Rightarrow> Inr (None, h1)
         | Inr (Some parsed, h1) \<Rightarrow>
             Curve_stops ext context (i + 2) (stops @ [(the_number label, parsed)])
               (case outputType of Some t \<Rightarrow> Some t | None \<Rightarrow> Some (type_of parsed))
               (drop 1 rest) h1))"
  by pat_completeness auto

lemma size_list_drop: "size_list f (drop n xs) + min n (length xs) \<le> size_list f xs"
proof (induction xs arbitrary: n)
  case Nil
  show ?case by simp
next
  case (Cons a xs)
  show ?case
  proof (cases n)
    case 0
    then show ?thesis by simp
  next
    case (Suc m)
    then show ?thesis using Cons.IH [of m] by simp
  qed
qed

lemma length_le_size_list: "length xs \<le> size_list f xs"
  by (induction xs) auto

lemma size_list_nth: "i < length xs \<Longrightarrow> f (xs ! i) + length xs \<le> size_list f xs"
proof (induction xs arbitrary: i)
  case Nil
  then show ?case by simp
next
  case (Cons a xs)
  show ?case
  proof (cases i)
    case 0
    then show ?thesis using length_le_size_list [of xs f] by simp
  next
    case (Suc j)
    then show ?thesis using Cons.IH [of j] Cons.prems by simp
  qed
qed

lemma size_at_index: "size (at_index xs i) < size_list size xs + 1"
  using size_list_nth [of i xs size] by (auto simp: at_index_def)

lemma Curve_parse_input_smaller:
  assumes "\<not> length (drop 1 xs) < 4"
  shows "2 * size (at_index (drop 1 xs) 1) + 5 < 2 * size_list size xs"
proof -
  have "1 < length (drop 1 xs)" using assms by simp
  then have "size (at_index (drop 1 xs) 1) + length (drop 1 xs) \<le> size_list size (drop 1 xs)"
    using size_list_nth [of 1 "drop 1 xs" size] by (simp add: at_index_def)
  moreover have "size_list size (drop 1 xs) \<le> size_list size xs"
    using size_list_drop [of size 1 xs] by simp
  ultimately show ?thesis using assms by simp
qed

lemma Curve_parse_rest_smaller:
  assumes "\<not> length (drop 1 xs) < 4"
  shows "2 * size_list size (drop 2 (drop 1 xs)) + 4 < 2 * size_list size xs"
  using size_list_drop [of size 3 xs] assms by (simp add: min_def split: if_splits)

lemma Curve_stops_value_smaller:
  "2 * size (at_index rest 0) + 5 < 2 * size_list size (label # rest) + 4"
  using size_at_index [of rest 0] by simp

lemma Curve_stops_rest_smaller:
  "size_list size (drop 1 rest) < size_list size (label # rest)"
  using size_list_drop [of size 1 rest] by simp

termination parseExpression
  apply (relation "measure (\<lambda>x. case x of
           Inl (ext, j, c, h) \<Rightarrow> 2 * size j + 5
         | Inr (Inl (ext, xs, c, T, h)) \<Rightarrow> 2 * size_list size xs
         | Inr (Inr (ext, c, i, stops, outT, rest, h)) \<Rightarrow> 2 * size_list size rest + 4)")
  subgoal by simp
  subgoal by (auto split: if_splits)
  subgoal for ext args0 using Curve_parse_input_smaller [of args0] by simp
  subgoal for ext args0 using Curve_parse_rest_smaller [of args0] by simp
  subgoal for ext c i stops outputType label rest
    using Curve_stops_value_smaller [of rest label] by simp
  subgoal for ext c i stops outputType label rest
    using Curve_stops_rest_smaller [of rest label] by simp
  done

declare parseExpression.simps [simp del] Curve_parse.simps [simp del] Curve_stops.simps [simp del]

text \<open>
  \<open>Expr.parse(expr, context)\<close> as \<open>parseExpression\<close> calls it, for a registered kind: two
  arguments, so \<open>Curve.parse\<close> runs with its third parameter \<open>undefined\<close>.
\<close>

definition Expr_parse ::
  "host_parsers \<Rightarrow> klass \<Rightarrow> mixed list \<Rightarrow> ParsingContext \<Rightarrow> heap \<Rightarrow> fault + (expr option \<times> heap)" where
  "Expr_parse ext Expr xs ctx h =
     (case Expr of
        CurveClass \<Rightarrow> Curve_parse ext xs ctx None h
      | ExternalClass k \<Rightarrow> Inr (ext k xs ctx h))"

section \<open>Serialisation\<close>

fun interpolation_json :: "InterpolationType \<Rightarrow> mixed list" where
  "interpolation_json Step = [JStr ''step'']"
| "interpolation_json Linear = [JStr ''linear'']"
| "interpolation_json (Exponential base) = [JStr ''exponential'', JNum base]"
| "interpolation_json (CubicBezier controlPoints) = JStr ''cubic-bezier'' # map JNum controlPoints"

fun serialize :: "expr \<Rightarrow> mixed" where
  "serialize (External k t s) = s"
| "serialize (Curve k t interpolation input stops) =
     JArr ([JStr ''curve'', JArr (interpolation_json interpolation), serialize input]
           @ concat (map (\<lambda>(label, expression). [JNum label, serialize expression]) stops))"

text \<open>The values among the labels and values of a curve (every second element), and what
  \<open>serialize\<close> writes for one stop.\<close>

fun stop_values :: "mixed list \<Rightarrow> mixed list" where
  "stop_values (label # v # rest) = v # stop_values rest"
| "stop_values _ = []"

abbreviation stop_json :: "real \<times> expr \<Rightarrow> mixed list" where
  "stop_json \<equiv> (\<lambda>(label, expression). [JNum label, serialize expression])"

text \<open>
  Two lists of labels and values that are the same up to a relation \<open>R\<close> between the values:
  the same labels, and values related by \<open>R\<close>. With \<open>R\<close> one states that a curve is
  reproduced up to the encoding of its sub-expressions (a literal \<open>5\<close> may come back as
  \<open>["literal", 5]\<close>).
\<close>

fun stops_alike :: "(mixed \<Rightarrow> mixed \<Rightarrow> bool) \<Rightarrow> mixed list \<Rightarrow> mixed list \<Rightarrow> bool" where
  "stops_alike R (l' # v' # r') (l # v # r) = (l' = l \<and> R v' v \<and> stops_alike R r' r)"
| "stops_alike R [] [] = True"
| "stops_alike R _ _ = False"

section \<open>A registry and a root context for the examples\<close>

text \<open>
  The examples run on a store without diagnostics and a registry with \<open>Curve\<close> under
  \<open>"curve"\<close> and two kinds of the host: \<open>"error"\<close>, whose expressions have the type \<open>Error\<close>,
  and \<open>"literal"\<close>, whose expressions have the type \<open>Number\<close>. Both parsers accept every
  array, record nothing, and serialise an expression to the array it was parsed from.
  The children of a curve are parsed in a context whose expected type is the string
  \<open>'curve'\<close>, and against a string only the type \<open>Error\<close> passes \<open>checkSubtype\<close>
  (\<open>checkSubtype_string\<close> below): the curves that parse in the examples have children of
  the kind \<open>"error"\<close>.
\<close>

definition no_errors :: heap where
  "no_errors = (\<lambda>a. [])"

definition sample_definitions :: "string \<Rightarrow> klass option" where
  "sample_definitions name =
     (if name = ''curve'' then Some CurveClass
      else if name = ''error'' then Some (ExternalClass ''error'')
      else if name = ''literal'' then Some (ExternalClass ''literal'')
      else None)"

definition sample_parsers :: host_parsers where
  "sample_parsers k args c h =
     (if k = ''error'' then (Some (External (key c) ErrorType (JArr args)), h)
      else (Some (External (key c) NumberType (JArr args)), h))"

definition sample_root :: ParsingContext where
  "sample_root = ParsingContext_new sample_definitions [] None (Scope_new None []) 0"

section \<open>The rule for diagnostics\<close>



section \<open>The subtype checker: results and effect on the store\<close>

lemma report_None [simp]: "report None msg h = h"
  by (simp add: report_def)

lemma checkSubtype_no_context_aux:
  "(ctx = None \<longrightarrow> snd (checkSubtype expected t ctx h) = h)"
  "snd (checkMembers ms t h) = h"
proof (induction expected t ctx h and ms t h rule: checkSubtype_checkMembers.induct)
  case (1 expected t c h)
  show ?case
  proof
    assume c: "c = None"
    show "snd (checkSubtype expected t c h) = h"
      using 1 c
      by (subst checkSubtype.simps) (auto simp: Let_def split: prod.splits option.splits bool.splits)
  qed
next
  case (2 t h)
  show ?case by simp
next
  case (3 memberType ms t h)
  then show ?case
    by (auto split: prod.splits option.splits)
qed

lemma checkSubtype_None_heap [simp]: "snd (checkSubtype expected t None h) = h"
  using checkSubtype_no_context_aux(1) [of None expected t h] by simp

lemma checkMembers_heap [simp]: "snd (checkMembers ms t h) = h"
  by (rule checkSubtype_no_context_aux(2))

lemma checkSubtype_None_eq: "checkSubtype expected t None h = (fst (checkSubtype expected t None h), h)"
  by (metis checkSubtype_None_heap prod.collapse)

lemma checkMembers_eq: "checkMembers ms t h = (fst (checkMembers ms t h), h)"
  by (metis checkMembers_heap prod.collapse)

lemma checkMembers_iff:
  "fst (checkMembers ms t h) \<longleftrightarrow> (\<exists>m\<in>set ms. fst (checkSubtype (TypeV m) t None h) = None)"
proof (induction ms)
  case Nil
  show ?case by simp
next
  case (Cons m ms)
  show ?case
  proof (cases "fst (checkSubtype (TypeV m) t None h)")
    case None
    then show ?thesis
      using checkSubtype_None_eq [of "TypeV m" t h] by simp
  next
    case (Some e)
    then show ?thesis
      using checkSubtype_None_eq [of "TypeV m" t h] Cons.IH by simp
  qed
qed

text \<open>The result does not depend on the context or the store; the store changes only by
  the one report of a failure.\<close>

lemma checkSubtype_outcome:
  "checkSubtype expected t ctx h =
     (if fst (checkSubtype expected t None h) = None then (None, h)
      else (Some (ExpectedButFound expected t), report ctx (ExpectedButFound expected t) h))"
proof -
  obtain b where m: "checkMembers members t h = (b, h)"
    using checkMembers_eq [of members t h] by simp
  obtain r where i:
    "checkSubtype (TypeV (the (itemType_of expected))) (the (itemType t)) None h = (r, h)"
    using checkSubtype_None_eq by blast
  show ?thesis
    by (auto simp: checkSubtype.simps [of expected t ctx h] checkSubtype.simps [of expected t None h]
          m i Let_def split: option.splits bool.splits)
qed

lemma kind_Error_iff: "kind t = ''Error'' \<longleftrightarrow> t = ErrorType"
  by (cases t) auto

text \<open>Against a string in the place of the expected type, only \<open>Error\<close> passes.\<close>

lemma checkSubtype_string:
  "fst (checkSubtype (StrV s) t ctx h) = None \<longleftrightarrow> t = ErrorType"
  by (simp add: checkSubtype.simps Let_def kind_Error_iff)

lemma kind_Value_iff: "kind t = ''Value'' \<longleftrightarrow> t = ValueType"
  by (cases t) auto

text \<open>
  Claim C2, as amended. With expected type \<open>Value\<close>, \<open>checkSubtype\<close> succeeds on the actual
  types \<open>Value\<close> and \<open>Array(Value, unconstrained)\<close>, and it succeeds on \<open>Number\<close> as well:
  \<open>Number\<close> is a member of \<open>Value\<close>. It is the check in the other direction, expected
  \<open>Number\<close> against actual \<open>Value\<close>, that returns the error message.
\<close>

theorem checkSubtype_Value_examples:
  "fst (checkSubtype (TypeV ValueType) ValueType ctx h) = None \<and>
   fst (checkSubtype (TypeV ValueType) (Array ValueType None) ctx h) = None \<and>
   fst (checkSubtype (TypeV ValueType) NumberType ctx h) = None \<and>
   fst (checkSubtype (TypeV NumberType) ValueType ctx h)
     = Some (ExpectedButFound (TypeV NumberType) ValueType)"
  by (simp add: checkSubtype.simps members_def Let_def)

theorem checkSubtype_Value_examples_witness:
  "fst (checkSubtype (TypeV ValueType) NumberType (Some sample_root) no_errors) = None \<and>
   fst (checkSubtype (TypeV NumberType) ValueType (Some sample_root) no_errors)
     = Some (ExpectedButFound (TypeV NumberType) ValueType)"
  using checkSubtype_Value_examples [of "Some sample_root" no_errors] by simp

text \<open>
  Claim C2 as stated says that expected \<open>Value\<close> against actual \<open>Number\<close> fails. It
  succeeds.
\<close>

theorem checkSubtype_Value_Number_succeeds:
  "fst (checkSubtype (TypeV ValueType) NumberType None no_errors) = None"
  by (simp add: checkSubtype.simps members_def Let_def)

text \<open>
  Claim C3. For every actual type \<open>t\<close>, \<open>checkSubtype\<close> with expected type \<open>Value\<close> succeeds
  when \<open>t\<close> is \<open>Value\<close>, and otherwise succeeds exactly when \<open>t\<close> passes the check against at
  least one of the members \<open>Null\<close>, \<open>Number\<close>, \<open>String\<close>, \<open>Boolean\<close>, \<open>Color\<close>, \<open>Object\<close>,
  \<open>Array(Value, unconstrained)\<close>. The attempts on the members leave the store as it was;
  the store changes only on failure with a context given, by the one diagnostic at the
  context's key that names the expected and the actual type.
\<close>

theorem checkSubtype_Value_members:
  "(t = ValueType \<longrightarrow> fst (checkSubtype (TypeV ValueType) t ctx h) = None) \<and>
   (t \<noteq> ValueType \<longrightarrow>
      (fst (checkSubtype (TypeV ValueType) t ctx h) = None) =
      (\<exists>m\<in>set members. fst (checkSubtype (TypeV m) t None h) = None)) \<and>
   (\<forall>m\<in>set members. snd (checkSubtype (TypeV m) t None h) = h) \<and>
   snd (checkMembers members t h) = h \<and>
   snd (checkSubtype (TypeV ValueType) t ctx h) =
     (if fst (checkSubtype (TypeV ValueType) t ctx h) = None then h
      else case ctx of
             None \<Rightarrow> h
           | Some c \<Rightarrow> h(errors c := h (errors c) @
                         [ParsingError (key c) (ExpectedButFound (TypeV ValueType) t)]))"
proof -
  have value_kind: "kind t = ''Value'' \<longleftrightarrow> t = ValueType"
    by (rule kind_Value_iff)
  obtain b where m: "checkMembers members t h = (b, h)"
    using checkMembers_eq [of members t h] by simp
  have b: "b = (\<exists>m\<in>set members. fst (checkSubtype (TypeV m) t None h) = None)"
    using checkMembers_iff [of members t h] m by simp
  have err: "kind t = ''Error'' \<Longrightarrow> fst (checkSubtype (TypeV NullType) t None h) = None"
    by (simp add: checkSubtype.simps)
  have null: "NullType \<in> set members"
    by (simp add: members_def)
  have 1: "t = ValueType \<longrightarrow> fst (checkSubtype (TypeV ValueType) t ctx h) = None"
    by (simp add: checkSubtype.simps)
  have 2: "t \<noteq> ValueType \<longrightarrow>
      (fst (checkSubtype (TypeV ValueType) t ctx h) = None) =
      (\<exists>m\<in>set members. fst (checkSubtype (TypeV m) t None h) = None)"
    using err null
    by (auto simp: checkSubtype.simps [of "TypeV ValueType" t ctx h] m b value_kind Let_def
        split: bool.splits)
  have 3: "snd (checkSubtype (TypeV ValueType) t ctx h) =
     (if fst (checkSubtype (TypeV ValueType) t ctx h) = None then h
      else case ctx of
             None \<Rightarrow> h
           | Some c \<Rightarrow> h(errors c := h (errors c) @
                         [ParsingError (key c) (ExpectedButFound (TypeV ValueType) t)]))"
    by (subst (1 2) checkSubtype_outcome)
       (simp add: report_def ParsingContext_error_def split: option.splits)
  show ?thesis
    using 1 2 3 by simp
qed

theorem checkSubtype_Value_members_witness:
  "StringType \<noteq> ValueType \<and>
   fst (checkSubtype (TypeV ValueType) StringType (Some sample_root) no_errors) = None \<and>
   (\<exists>m\<in>set members. fst (checkSubtype (TypeV m) StringType None no_errors) = None) \<and>
   snd (checkSubtype (TypeV ValueType) StringType (Some sample_root) no_errors) = no_errors"
proof -
  have "fst (checkSubtype (TypeV ValueType) StringType (Some sample_root) no_errors) = None"
    by (simp add: checkSubtype.simps members_def Let_def)
  then show ?thesis
    using checkSubtype_Value_members [of StringType "Some sample_root" no_errors] by simp
qed

text \<open>
  Claim C4, as amended. For every expected type \<open>Array(itemType, length)\<close> and every actual
  type \<open>t\<close> other than \<open>Error\<close>, \<open>checkSubtype\<close> succeeds exactly when \<open>t\<close> is
  \<open>Array(itemType', length')\<close>, the check of \<open>itemType\<close> against \<open>itemType'\<close> succeeds, and
  \<open>length\<close> is unconstrained or equal to \<open>length'\<close>. On the actual type \<open>Error\<close> it succeeds
  whatever the expected array type: \<open>Error\<close> is a subtype of every type. \<open>Array(Number, 3)\<close>
  against \<open>Array(Number, 3)\<close> succeeds, against \<open>Array(Number, 4)\<close> fails, and
  \<open>Array(Number, unconstrained)\<close> against \<open>Array(Number, 4)\<close> succeeds.
\<close>

theorem checkSubtype_Array:
  "(t \<noteq> ErrorType \<longrightarrow>
      (fst (checkSubtype (TypeV (Array item n)) t ctx h) = None) =
      (\<exists>item' n'. t = Array item' n' \<and>
                  fst (checkSubtype (TypeV item) item' None h) = None \<and>
                  (n = None \<or> n = n'))) \<and>
   fst (checkSubtype (TypeV (Array item n)) ErrorType ctx h) = None \<and>
   fst (checkSubtype (TypeV (Array NumberType (Some 3))) (Array NumberType (Some 3)) ctx h) = None \<and>
   fst (checkSubtype (TypeV (Array NumberType (Some 3))) (Array NumberType (Some 4)) ctx h)
     = Some (ExpectedButFound (TypeV (Array NumberType (Some 3))) (Array NumberType (Some 4))) \<and>
   fst (checkSubtype (TypeV (Array NumberType None)) (Array NumberType (Some 4)) ctx h) = None"
proof -
  have i: "\<And>a b. checkSubtype a b None h = (fst (checkSubtype a b None h), h)"
    by (rule checkSubtype_None_eq)
  have 1: "t \<noteq> ErrorType \<longrightarrow>
      (fst (checkSubtype (TypeV (Array item n)) t ctx h) = None) =
      (\<exists>item' n'. t = Array item' n' \<and>
                  fst (checkSubtype (TypeV item) item' None h) = None \<and>
                  (n = None \<or> n = n'))"
  proof (cases t)
    case (Array item' n')
    then show ?thesis
      using i [of "TypeV item" item']
      by (cases "fst (checkSubtype (TypeV item) item' None h)")
         (auto simp: checkSubtype.simps [of "TypeV (Array item n)" "Array item' n'" ctx h] Let_def)
  qed (simp_all add: checkSubtype.simps Let_def)
  have 2: "fst (checkSubtype (TypeV (Array item n)) ErrorType ctx h) = None"
    by (simp add: checkSubtype.simps Let_def)
  have 3: "fst (checkSubtype (TypeV (Array NumberType (Some 3))) (Array NumberType (Some 3)) ctx h) = None"
    "fst (checkSubtype (TypeV (Array NumberType (Some 3))) (Array NumberType (Some 4)) ctx h)
     = Some (ExpectedButFound (TypeV (Array NumberType (Some 3))) (Array NumberType (Some 4)))"
    "fst (checkSubtype (TypeV (Array NumberType None)) (Array NumberType (Some 4)) ctx h) = None"
    by (simp_all add: checkSubtype.simps Let_def)
  show ?thesis using 1 2 3 by simp
qed

theorem checkSubtype_Array_witness:
  "Array NumberType (Some 4) \<noteq> ErrorType \<and>
   fst (checkSubtype (TypeV (Array ValueType None)) (Array NumberType (Some 4)) None no_errors) = None \<and>
   fst (checkSubtype (TypeV ValueType) NumberType None no_errors) = None"
  using checkSubtype_Array [of "Array NumberType (Some 4)" ValueType None None no_errors]
  by (simp add: checkSubtype.simps members_def Let_def)

text \<open>
  Claim C4 as stated quantifies over every actual type. On \<open>Error\<close>, which is not an array
  type, the check against an array type succeeds.
\<close>

theorem checkSubtype_Array_Error_succeeds:
  "fst (checkSubtype (TypeV (Array NumberType (Some 3))) ErrorType None no_errors) = None \<and>
   kind ErrorType \<noteq> ''Array''"
  by (simp add: checkSubtype.simps Let_def)

section \<open>Derived contexts\<close>

text \<open>
  Claim C9. For a context \<open>c\<close>, an index \<open>i\<close>, an optional expected type and optional
  bindings, \<open>concat\<close> yields a context whose path is \<open>c\<close>'s path extended with \<open>i\<close> (and
  whose key prints that path), whose definitions and \<open>errors\<close> array are \<open>c\<close>'s (the same
  address in the store), whose scope is \<open>c\<close>'s scope, or a new frame with \<open>c\<close>'s scope as
  parent when bindings are given, and whose expected type is the one supplied, \<open>null\<close> when
  none is. The expected type of \<open>c\<close> has no influence on the result. \<open>concat\<close> is a
  function of its arguments only: it neither reads nor writes the store, and \<open>c\<close> is a
  value.
\<close>

theorem ParsingContext_concat_child:
  "path (ParsingContext_concat c i T bs) = path c @ [i] \<and>
   key (ParsingContext_concat c i T bs) = concat (map bracket (path c @ [i])) \<and>
   definitions (ParsingContext_concat c i T bs) = definitions c \<and>
   errors (ParsingContext_concat c i T bs) = errors c \<and>
   scope (ParsingContext_concat c i T None) = scope c \<and>
   scope (ParsingContext_concat c i T (Some b)) = Scope (Some (scope c)) (map_of (rev b)) \<and>
   expectedType (ParsingContext_concat c i (Some (TypeV t)) bs) = Some (TypeV t) \<and>
   expectedType (ParsingContext_concat c i None bs) = None \<and>
   expectedType (ParsingContext_concat c i T bs) = (if truthy T then T else None) \<and>
   ParsingContext_concat (c\<lparr>expectedType := e\<rparr>) i T bs = ParsingContext_concat c i T bs"
  by (simp add: ParsingContext_concat_def ParsingContext_new_def Scope_concat_def Scope_new_def
      Let_def split: option.splits)

theorem ParsingContext_concat_child_witness:
  "path (ParsingContext_concat (sample_root\<lparr>expectedType := Some (TypeV ColorType)\<rparr>) 2
           (Some (TypeV NumberType)) None) = [2] \<and>
   key (ParsingContext_concat (sample_root\<lparr>expectedType := Some (TypeV ColorType)\<rparr>) 2
           (Some (TypeV NumberType)) None) = ''[2]'' \<and>
   errors (ParsingContext_concat (sample_root\<lparr>expectedType := Some (TypeV ColorType)\<rparr>) 2
           (Some (TypeV NumberType)) None) = 0 \<and>
   expectedType (ParsingContext_concat (sample_root\<lparr>expectedType := Some (TypeV ColorType)\<rparr>) 2
           (Some (TypeV NumberType)) None) = Some (TypeV NumberType) \<and>
   expectedType (ParsingContext_concat (sample_root\<lparr>expectedType := Some (TypeV ColorType)\<rparr>) 2
           None None) = None"
  using ParsingContext_concat_child
    [where c = "sample_root\<lparr>expectedType := Some (TypeV ColorType)\<rparr>" and i = 2
       and T = "Some (TypeV NumberType)" and bs = None and b = "[]" and t = NumberType
       and e = None]
  by (simp add: sample_root_def ParsingContext_new_def bracket_def digit_def)

section \<open>The dispatcher and the expected type\<close>

text \<open>
  Claim C5. When the operator of the (normalised) input is registered and the parser of its
  kind returns an expression \<open>parsed\<close>, leaving the store \<open>h1\<close>: if the expected type of the
  context is set, \<open>parseExpression\<close> runs \<open>checkSubtype\<close> on it and the type of \<open>parsed\<close>
  with the context as the sink, and returns \<open>parsed\<close> when the check succeeds and nothing
  when it fails; if the expected type is not set it returns \<open>parsed\<close>.
\<close>

theorem parseExpression_expected_type:
  assumes "(if is_scalar e then JArr [JStr ''literal'', e] else e) = JArr (JStr name # xs)"
    and "definitions c name = Some Expr"
    and "Expr_parse ext Expr (JStr name # xs) c h = Inr (Some parsed, h1)"
  shows "(truthy (expectedType c) \<longrightarrow>
            parseExpression ext e c h =
              (case checkSubtype (the (expectedType c)) (type_of parsed) (Some c) h1 of
                 (None, h2) \<Rightarrow> Inr (Some parsed, h2)
               | (Some m, h2) \<Rightarrow> Inr (None, h2))) \<and>
         (\<not> truthy (expectedType c) \<longrightarrow> parseExpression ext e c h = Inr (Some parsed, h1))"
  using assms(2,3)
  by (simp add: parseExpression.simps [of ext e c h] assms(1) Expr_parse_def Let_def
        split: klass.splits)

lemmas sample_simps =
  sample_root_def sample_definitions_def sample_parsers_def no_errors_def
  ParsingContext_new_def ParsingContext_concat_def ParsingContext_error_def
  bracket_def digit_def report_def fail_def at_index_def Let_def
  parse_interpolation_def bad_control_point_def interpolatable_def
  checkSubtype.simps parseExpression.simps Curve_parse.simps Curve_stops.simps

theorem parseExpression_expected_type_witness:
  "parseExpression sample_parsers (JNum 7)
     (sample_root\<lparr>expectedType := Some (TypeV NumberType)\<rparr>) no_errors
     = Inr (Some (External [] NumberType (JArr [JStr ''literal'', JNum 7])), no_errors) \<and>
   parseExpression sample_parsers (JNum 7)
     (sample_root\<lparr>expectedType := Some (TypeV StringType)\<rparr>) no_errors
     = Inr (None, no_errors(0 := [ParsingError [] (ExpectedButFound (TypeV StringType) NumberType)])) \<and>
   parseExpression sample_parsers (JNum 7) sample_root no_errors
     = Inr (Some (External [] NumberType (JArr [JStr ''literal'', JNum 7])), no_errors)"
proof -
  let ?p = "External [] NumberType (JArr [JStr ''literal'', JNum 7])"
  have d: "\<And>T. definitions (sample_root\<lparr>expectedType := T\<rparr>) ''literal'' = Some (ExternalClass ''literal'')"
    by (simp add: sample_root_def ParsingContext_new_def sample_definitions_def)
  have p: "\<And>T. Expr_parse sample_parsers (ExternalClass ''literal'') [JStr ''literal'', JNum 7]
             (sample_root\<lparr>expectedType := T\<rparr>) no_errors = Inr (Some ?p, no_errors)"
    by (simp add: Expr_parse_def sample_parsers_def sample_root_def ParsingContext_new_def)
  have s: "(if is_scalar (JNum 7) then JArr [JStr ''literal'', JNum 7] else JNum 7)
           = JArr [JStr ''literal'', JNum 7]"
    by simp
  have k: "key sample_root = []" "errors sample_root = 0" 
    by (simp_all add: sample_root_def ParsingContext_new_def)
  show ?thesis
    using parseExpression_expected_type [OF s d p, of "Some (TypeV NumberType)"]
      parseExpression_expected_type [OF s d p, of "Some (TypeV StringType)"]
      parseExpression_expected_type [OF s d p, of None]
    by (simp add: checkSubtype.simps Let_def report_def ParsingContext_error_def k no_errors_def
          sample_root_def ParsingContext_new_def)
qed

section \<open>The stops of a curve\<close>

lemma drop_at: "i < length xs \<Longrightarrow> drop i xs = xs ! i # drop (Suc i) xs"
  by (simp add: Cons_nth_drop_Suc)

text \<open>
  Claim C1. At index \<open>i\<close> of the flattened list \<open>rest\<close> of labels and values, with a numeric
  label and at least one stop parsed before: when the label of the previous stop is
  greater than the label at \<open>i\<close>, the parse fails with the one diagnostic that asks for
  ascending order, whose key is the key of the context extended by \<open>[i + 3]\<close>; when the two
  labels are equal, the order check passes and the parse goes on with the value at
  \<open>i + 1\<close>, parsed in the child context at position \<open>i + 4\<close>.
\<close>

theorem Curve_stops_ascending:
  assumes "i < length rest0" and "rest0 ! i = JNum l" and "stops \<noteq> []"
  shows "(fst (last stops) > l \<longrightarrow>
            Curve_stops ext c i stops T (drop i rest0) h =
              Inr (None, h(errors c := h (errors c) @
                           [ParsingError (key c @ bracket (i + 3)) StopsNotAscending]))) \<and>
         (fst (last stops) = l \<longrightarrow>
            Curve_stops ext c i stops T (drop i rest0) h =
              (case parseExpression ext (at_index rest0 (i + 1))
                      (ParsingContext_concat c (i + 4) (Some (StrV ''curve'')) None) h of
                 Inl f \<Rightarrow> Inl f
               | Inr (None, h1) \<Rightarrow> Inr (None, h1)
               | Inr (Some parsed, h1) \<Rightarrow>
                   Curve_stops ext c (i + 2) (stops @ [(l, parsed)])
                     (case T of Some t \<Rightarrow> Some t | None \<Rightarrow> Some (type_of parsed))
                     (drop (i + 2) rest0) h1))"
proof -
  have d: "drop i rest0 = JNum l # drop (Suc i) rest0"
    using assms(1,2) drop_at [of i rest0] by simp
  have v: "at_index (drop (Suc i) rest0) 0 = at_index rest0 (i + 1)"
    by (simp add: at_index_def)
  show ?thesis
    unfolding d
    by (simp add: Curve_stops.simps v assms(3) fail_def ParsingContext_error_def Let_def
          split: sum.splits prod.splits option.splits)
qed

theorem Curve_stops_ascending_witness:
  "Curve_stops sample_parsers sample_root 2 [(2, External ''[4]'' ErrorType (JArr [JStr ''error'']))] (Some ErrorType)
     (drop 2 [JNum 2, JArr [JStr ''error''], JNum 1, JArr [JStr ''error'']]) no_errors
     = Inr (None, no_errors(0 := [ParsingError ''[5]'' StopsNotAscending])) \<and>
   Curve_stops sample_parsers sample_root 2 [(2, External ''[4]'' ErrorType (JArr [JStr ''error'']))] (Some ErrorType)
     (drop 2 [JNum 2, JArr [JStr ''error''], JNum 2, JArr [JStr ''error'']]) no_errors
     = Inr (Some ([(2, External ''[4]'' ErrorType (JArr [JStr ''error''])),
                   (2, External ''[6]'' ErrorType (JArr [JStr ''error'']))], Some ErrorType),
            no_errors) \<and>
   parseExpression sample_parsers
     (JArr [JStr ''curve'', JArr [JStr ''step''], JArr [JStr ''error''],
            JNum 2, JArr [JStr ''error''], JNum 1, JArr [JStr ''error'']])
     sample_root no_errors
     = Inr (None, no_errors(0 := [ParsingError ''[5]'' StopsNotAscending]))"
proof -
  let ?e = "External ''[4]'' ErrorType (JArr [JStr ''error''])"
  have 1: "(2::nat) < length [JNum 2, JArr [JStr ''error''], JNum 1, JArr [JStr ''error'']]"
    "[JNum 2, JArr [JStr ''error''], JNum 1, JArr [JStr ''error'']] ! 2 = JNum 1"
    "[(2::real, ?e)] \<noteq> []" "fst (last [(2::real, ?e)]) > 1"
    by simp_all
  have 2: "(2::nat) < length [JNum 2, JArr [JStr ''error''], JNum 2, JArr [JStr ''error'']]"
    "[JNum 2, JArr [JStr ''error''], JNum 2, JArr [JStr ''error'']] ! 2 = JNum 2"
    "fst (last [(2::real, ?e)]) = 2"
    by simp_all
  show ?thesis
    using Curve_stops_ascending [OF 1(1,2,3), of sample_parsers sample_root "Some ErrorType" no_errors]
      Curve_stops_ascending [OF 2(1,2) 1(3), of sample_parsers sample_root "Some ErrorType" no_errors]
      1(4) 2(3)
    by (simp add: sample_simps)
qed

text \<open>
  Claim C6. After the interpolation, the input and all stops have been parsed, with output
  type \<open>T\<close>: when the interpolation is not \<open>step\<close> and \<open>T\<close> is none of \<open>Number\<close>, \<open>Color\<close> and
  \<open>Array(Number, _)\<close>, \<open>Curve.parse\<close> fails with the one diagnostic "not interpolatable",
  which carries the type and the name of the interpolation, at the key of the context
  extended by \<open>[1]\<close>; when the interpolation is \<open>step\<close>, every output type is accepted and
  the curve is returned.
\<close>

theorem Curve_parse_interpolatable:
  assumes "\<not> length (drop 1 args) < 4"
    and "parse_interpolation (at_index (drop 1 args) 0) = Inr interpolation"
    and "parseExpression ext (at_index (drop 1 args) 1)
           (ParsingContext_concat c 2 (Some (StrV ''curve'')) None) h = Inr (Some input, h1)"
    and "Curve_stops ext c 0 [] T0 (drop 2 (drop 1 args)) h1 = Inr (Some (stops, Some T), h2)"
  shows "(interpolation \<noteq> Step \<and> T \<noteq> NumberType \<and> T \<noteq> ColorType \<and>
          (\<forall>n. T \<noteq> Array NumberType n) \<longrightarrow>
            Curve_parse ext args c T0 h =
              Inr (None, h2(errors c := h2 (errors c) @
                     [ParsingError (key c @ bracket 1)
                        (NotInterpolatable T (interpolation_name interpolation))]))) \<and>
         (interpolation = Step \<longrightarrow>
            Curve_parse ext args c T0 h = Inr (Some (Curve (key c) T Step input stops), h2))"
proof -
  have n: "interpolation \<noteq> Step \<longleftrightarrow> interpolation_name interpolation \<noteq> ''step''"
    by (cases interpolation) auto
  have k: "kind T \<noteq> ''array''"
    by (cases T) auto
  show ?thesis
    using assms
    by (simp add: Curve_parse.simps [of ext args c T0 h] Let_def interpolatable_def n k fail_def
          ParsingContext_error_def del: drop_drop)
qed

theorem Curve_parse_interpolatable_witness:
  "Curve_parse sample_parsers
     [JStr ''curve'', JArr [JStr ''linear''], JArr [JStr ''error''], JNum 0, JArr [JStr ''error'']]
     sample_root None no_errors
     = Inr (None, no_errors(0 := [ParsingError ''[1]'' (NotInterpolatable ErrorType ''linear'')])) \<and>
   Curve_parse sample_parsers
     [JStr ''curve'', JArr [JStr ''step''], JArr [JStr ''error''], JNum 0, JArr [JStr ''error'']]
     sample_root None no_errors
     = Inr (Some (Curve [] ErrorType Step (External ''[2]'' ErrorType (JArr [JStr ''error'']))
                    [(0, External ''[4]'' ErrorType (JArr [JStr ''error'']))]), no_errors)"
proof -
  let ?lin = "[JStr ''curve'', JArr [JStr ''linear''], JArr [JStr ''error''], JNum 0, JArr [JStr ''error'']]"
  let ?stp = "[JStr ''curve'', JArr [JStr ''step''], JArr [JStr ''error''], JNum 0, JArr [JStr ''error'']]"
  let ?in = "External ''[2]'' ErrorType (JArr [JStr ''error''])"
  let ?st = "[(0::real, External ''[4]'' ErrorType (JArr [JStr ''error'']))]"
  have a: "\<not> length (drop 1 ?lin) < 4" "\<not> length (drop 1 ?stp) < 4"
    by simp_all
  have b: "parse_interpolation (at_index (drop 1 ?lin) 0) = Inr Linear"
    "parse_interpolation (at_index (drop 1 ?stp) 0) = Inr Step"
    by (simp_all add: parse_interpolation_def at_index_def)
  have c: "parseExpression sample_parsers (at_index (drop 1 ?lin) 1)
             (ParsingContext_concat sample_root 2 (Some (StrV ''curve'')) None) no_errors
           = Inr (Some ?in, no_errors)"
    "parseExpression sample_parsers (at_index (drop 1 ?stp) 1)
             (ParsingContext_concat sample_root 2 (Some (StrV ''curve'')) None) no_errors
           = Inr (Some ?in, no_errors)"
    by (simp_all add: sample_simps)
  have d: "Curve_stops sample_parsers sample_root 0 [] None (drop 2 (drop 1 ?lin)) no_errors
           = Inr (Some (?st, Some ErrorType), no_errors)"
    "Curve_stops sample_parsers sample_root 0 [] None (drop 2 (drop 1 ?stp)) no_errors
           = Inr (Some (?st, Some ErrorType), no_errors)"
    by (simp_all add: sample_simps)
  show ?thesis
    using Curve_parse_interpolatable [OF a(1) b(1) c(1) d(1)]
      Curve_parse_interpolatable [OF a(2) b(2) c(2) d(2)]
    by (simp add: sample_root_def ParsingContext_new_def bracket_def digit_def no_errors_def)
qed

section \<open>The type of a curve\<close>

text \<open>What a successful run of the loop returns: the stops it started with, followed by
  at least one new stop when \<open>rest\<close> is not empty; and the output type it started with or,
  when it started with none, the type of the first new stop.\<close>

lemma Curve_stops_result:
  "Curve_stops ext c i stops T rest h = Inr (Some (stops', T'), h') \<Longrightarrow>
     \<exists>new. stops' = stops @ new \<and>
           (rest \<noteq> [] \<longrightarrow> new \<noteq> []) \<and>
           T' = (case T of Some t \<Rightarrow> Some t
                 | None \<Rightarrow> (case new of [] \<Rightarrow> None | s # _ \<Rightarrow> Some (type_of (snd s))))"
proof (induction "length rest" arbitrary: i stops T rest h rule: less_induct)
  case less
  show ?case
  proof (cases rest)
    case Nil
    then show ?thesis using less.prems by (auto simp: Curve_stops.simps split: option.splits)
  next
    case (Cons label tl)
    from less.prems Cons obtain parsed h1 where
      rec: "Curve_stops ext c (i + 2) (stops @ [(the_number label, parsed)])
              (case T of Some t \<Rightarrow> Some t | None \<Rightarrow> Some (type_of parsed)) (drop 1 tl) h1
            = Inr (Some (stops', T'), h')"
      by (auto simp: Curve_stops.simps fail_def Let_def split: if_splits sum.splits prod.splits option.splits)
    have "length (drop 1 tl) < length rest" using Cons by simp
    from less.hyps [OF this rec] obtain new where
      new: "stops' = (stops @ [(the_number label, parsed)]) @ new"
        "T' = (case (case T of Some t \<Rightarrow> Some t | None \<Rightarrow> Some (type_of parsed)) of Some t \<Rightarrow> Some t
                 | None \<Rightarrow> (case new of [] \<Rightarrow> None | s # _ \<Rightarrow> Some (type_of (snd s))))"
      by blast
    show ?thesis
      by (rule exI [of _ "(the_number label, parsed) # new"])
         (use new Cons in \<open>auto split: option.splits\<close>)
  qed
qed

lemma Curve_stops_first:
  assumes "Curve_stops ext c i [] T (label # vs) h = Inr (Some (stops', T'), h')"
  shows "\<exists>parsed h1 rest'.
           stops' = (the_number label, parsed) # rest' \<and>
           parseExpression ext (at_index vs 0)
             (ParsingContext_concat c (i + 4) (Some (StrV ''curve'')) None) h = Inr (Some parsed, h1) \<and>
           T' = (case T of Some t \<Rightarrow> Some t | None \<Rightarrow> Some (type_of parsed))"
proof -
  from assms obtain parsed h1 where
    p: "parseExpression ext (at_index vs 0)
          (ParsingContext_concat c (i + 4) (Some (StrV ''curve'')) None) h = Inr (Some parsed, h1)"
    and rec: "Curve_stops ext c (i + 2) ([] @ [(the_number label, parsed)])
              (case T of Some t \<Rightarrow> Some t | None \<Rightarrow> Some (type_of parsed)) (drop 1 vs) h1
            = Inr (Some (stops', T'), h')"
    by (auto simp: Curve_stops.simps fail_def Let_def
          split: if_splits sum.splits prod.splits option.splits)
  from Curve_stops_result [OF rec] obtain new where
    "stops' = ([] @ [(the_number label, parsed)]) @ new"
    "T' = (case (case T of Some t \<Rightarrow> Some t | None \<Rightarrow> Some (type_of parsed)) of Some t \<Rightarrow> Some t
            | None \<Rightarrow> (case new of [] \<Rightarrow> None | s # _ \<Rightarrow> Some (type_of (snd s))))"
    by blast
  then show ?thesis using p by (auto split: option.splits)
qed

text \<open>
  Claim C10. \<open>parseExpression\<close> calls the parser of a registered kind with the raw array
  and the context only. So when the operator is registered as \<open>Curve\<close> and
  \<open>parseExpression\<close> returns an expression, that expression is what \<open>Curve.parse\<close> returned
  with its third parameter absent, it is a \<open>Curve\<close>, it has at least one stop, and its type
  is the type of the expression of its first stop, which is what \<open>parseExpression\<close>
  returned for the first value (element 4 of the array) in the child context at position 4.
\<close>

theorem Curve_type_is_first_stop_type:
  assumes "definitions c name = Some CurveClass"
    and "parseExpression ext (JArr (JStr name # xs)) c h = Inr (Some e, h')"
  shows "\<exists>interpolation input l parsed stops' h0 h1 h2.
           Curve_parse ext (JStr name # xs) c None h = Inr (Some e, h0) \<and>
           e = Curve (key c) (type_of parsed) interpolation input ((l, parsed) # stops') \<and>
           parseExpression ext (at_index xs 3)
             (ParsingContext_concat c 4 (Some (StrV ''curve'')) None) h1 = Inr (Some parsed, h2)"
proof -
  from assms obtain h0 where
    cp: "Curve_parse ext (JStr name # xs) c None h = Inr (Some e, h0)"
    by (auto simp: parseExpression.simps [of ext "JArr (JStr name # xs)" c h] Let_def
          split: sum.splits prod.splits option.splits if_splits)
  from cp have len: "\<not> length xs < 4"
    by (auto simp: Curve_parse.simps [of ext "JStr name # xs" c None h] fail_def Let_def
          split: if_splits)
  then obtain a b label vs where xs: "xs = a # b # label # vs"
    by (cases xs; cases "tl xs"; cases "tl (tl xs)") auto
  from cp len obtain interpolation input h1 stops T h2 where
    st: "Curve_stops ext c 0 [] None (drop 2 xs) h1 = Inr (Some (stops, Some T), h2)"
    and e: "e = Curve (key c) T interpolation input stops"
    by (auto simp: Curve_parse.simps [of ext "JStr name # xs" c None h] fail_def Let_def
          split: if_splits sum.splits prod.splits option.splits)
  from st xs have "Curve_stops ext c 0 [] None (label # vs) h1 = Inr (Some (stops, Some T), h2)"
    by simp
  from Curve_stops_first [OF this] obtain parsed h3 rest' where
    "stops = (the_number label, parsed) # rest'"
    "parseExpression ext (at_index vs 0)
       (ParsingContext_concat c (0 + 4) (Some (StrV ''curve'')) None) h1 = Inr (Some parsed, h3)"
    "Some T = Some (type_of parsed)"
    by auto
  moreover have "at_index vs 0 = at_index xs 3"
    using xs by (simp add: at_index_def)
  ultimately show ?thesis
    using cp e by auto
qed

theorem Curve_type_is_first_stop_type_witness:
  "definitions sample_root ''curve'' = Some CurveClass \<and>
   parseExpression sample_parsers
     (JArr [JStr ''curve'', JArr [JStr ''step''], JArr [JStr ''error''], JNum 0, JArr [JStr ''error'']])
     sample_root no_errors
     = Inr (Some (Curve [] ErrorType Step (External ''[2]'' ErrorType (JArr [JStr ''error'']))
                    [(0, External ''[4]'' ErrorType (JArr [JStr ''error'']))]), no_errors) \<and>
   (\<exists>interpolation input l parsed stops'.
       Curve [] ErrorType Step (External ''[2]'' ErrorType (JArr [JStr ''error'']))
         [(0, External ''[4]'' ErrorType (JArr [JStr ''error'']))]
       = Curve (key sample_root) (type_of parsed) interpolation input ((l, parsed) # stops'))"
proof -
  have d: "definitions sample_root ''curve'' = Some CurveClass"
    by (simp add: sample_simps)
  have p: "parseExpression sample_parsers
     (JArr (JStr ''curve'' # [JArr [JStr ''step''], JArr [JStr ''error''], JNum 0, JArr [JStr ''error'']]))
     sample_root no_errors
     = Inr (Some (Curve [] ErrorType Step (External ''[2]'' ErrorType (JArr [JStr ''error'']))
                    [(0, External ''[4]'' ErrorType (JArr [JStr ''error'']))]), no_errors)"
    by (simp add: sample_simps)
  from Curve_type_is_first_stop_type [OF d p] d p show ?thesis
    by blast
qed

section \<open>Diagnostics and failure go together\<close>


lemma errors_concat [simp]: "errors (ParsingContext_concat c i T bs) = errors c"
  by (simp add: ParsingContext_concat_def ParsingContext_new_def Let_def)


lemma parseExpression_cases:
  "(\<exists>msg keys. parseExpression ext e c h = fail c msg keys h) \<or>
   (\<exists>name xs K.
      (if is_scalar e then JArr [JStr ''literal'', e] else e) = JArr (JStr name # xs) \<and>
      definitions c name = Some K \<and>
      parseExpression ext e c h =
        (case Expr_parse ext K (JStr name # xs) c h of
           Inl f \<Rightarrow> Inl f
         | Inr (None, h1) \<Rightarrow> Inr (None, h1)
         | Inr (Some parsed, h1) \<Rightarrow>
             if truthy (expectedType c) then
               (case checkSubtype (the (expectedType c)) (type_of parsed) (Some c) h1 of
                  (Some m, h2) \<Rightarrow> Inr (None, h2)
                | (None, h2) \<Rightarrow> Inr (Some parsed, h2))
             else Inr (Some parsed, h1)))"
  by (simp add: parseExpression.simps [of ext e c h] Expr_parse_def Let_def
        split: mixed.splits list.splits option.splits klass.splits) blast


lemma definitions_concat [simp]: "definitions (ParsingContext_concat c i T bs) = definitions c"
  by (simp add: ParsingContext_concat_def ParsingContext_new_def Let_def)


lemma parser_no_fault:
  "parseExpression ext e c h \<noteq> Inl f"
  "Curve_parse ext args c T h \<noteq> Inl f"
  "Curve_stops ext c i stops T rest h \<noteq> Inl f"
proof (induction ext e c h and ext args c T h and ext c i stops T rest h
       rule: parseExpression_Curve_parse_Curve_stops.induct)
  case (1 ext e c h)
  from parseExpression_cases [of ext e c h] show ?case
  proof (elim disjE exE conjE)
    fix msg keys
    assume "parseExpression ext e c h = fail c msg keys h"
    then show ?thesis by (simp add: fail_def)
  next
    fix name xs K
    assume n: "(if is_scalar e then JArr [JStr ''literal'', e] else e) = JArr (JStr name # xs)"
      and d: "definitions c name = Some K"
      and eq: "parseExpression ext e c h =
          (case Expr_parse ext K (JStr name # xs) c h of
             Inl f \<Rightarrow> Inl f
           | Inr (None, h1) \<Rightarrow> Inr (None, h1)
           | Inr (Some parsed, h1) \<Rightarrow>
               if truthy (expectedType c) then
                 (case checkSubtype (the (expectedType c)) (type_of parsed) (Some c) h1 of
                    (Some m, h2) \<Rightarrow> Inr (None, h2)
                  | (None, h2) \<Rightarrow> Inr (Some parsed, h2))
               else Inr (Some parsed, h1))"
    have "Expr_parse ext K (JStr name # xs) c h \<noteq> Inl f"
    proof (cases K)
      case CurveClass
      then show ?thesis
        using "1.IH" [of "JArr (JStr name # xs)" "JStr name # xs" "JStr name" xs name K] n d
        by (simp add: Expr_parse_def)
    next
      case (ExternalClass k)
      then show ?thesis by (simp add: Expr_parse_def)
    qed
    moreover have "f = NoOutputType" by (cases f)
    ultimately show ?thesis
      unfolding eq by (auto split: sum.splits prod.splits option.splits)
  qed
next
  case (2 ext args0 c T h)
  let ?args = "drop 1 args0"
  let ?c2 = "ParsingContext_concat c 2 (Some (StrV ''curve'')) None"
  have f: "\<And>g. g = f" by (metis fault.exhaust)
  show ?case
  proof (cases "length ?args < 4")
    case True
    then show ?thesis by (simp add: Curve_parse.simps Let_def fail_def)
  next
    case long: False
    show ?thesis
    proof (cases "parse_interpolation (at_index ?args 0)")
      case (Inl mk)
      then show ?thesis
        using long by (cases mk) (simp add: Curve_parse.simps Let_def fail_def)
    next
      case (Inr interpolation)
      have ih1: "parseExpression ext (at_index ?args 1) ?c2 h \<noteq> Inl f"
        using "2.IH"(1) [OF refl long Inr] by simp
      show ?thesis
      proof (cases "parseExpression ext (at_index ?args 1) ?c2 h")
        case (Inl g)
        then show ?thesis using ih1 f [of g] by simp
      next
        case p: (Inr p)
        obtain r h1 where ph: "p = (r, h1)" by (cases p)
        show ?thesis
        proof (cases r)
          case None
          then show ?thesis
            using p ph long Inr by (simp add: Curve_parse.simps Let_def)
        next
          case (Some input)
          have ih2: "Curve_stops ext c 0 [] T (drop 2 ?args) h1 \<noteq> Inl f"
            using "2.IH"(2) [OF refl long Inr p [unfolded ph] refl Some] by simp
          show ?thesis
          proof (cases "Curve_stops ext c 0 [] T (drop 2 ?args) h1")
            case (Inl g)
            then show ?thesis using ih2 f [of g] by simp
          next
            case s: (Inr s)
            obtain r2 h2 where sh: "s = (r2, h2)" by (cases s)
            show ?thesis
            proof (cases r2)
              case None
              then show ?thesis
                using s sh p ph Some long Inr
                by (simp add: Curve_parse.simps Let_def)
            next
              case some: (Some st)
              obtain stops' T' where st: "st = (stops', T')" by (cases st)
              have ne: "drop 2 ?args \<noteq> []" using long by simp
              from Curve_stops_result [OF s [unfolded sh some st]] ne
              obtain t where T': "T' = Some t"
                by (auto split: option.splits list.splits)
              show ?thesis
                using s sh some st T' p ph Some long Inr
                by (simp add: Curve_parse.simps Let_def fail_def)
            qed
          qed
        qed
      qed
    qed
  qed
next
  case (3 ext c i stops T h)
  show ?case by (simp add: Curve_stops.simps)
next
  case (4 ext c i stops T label rest h)
  let ?c4 = "ParsingContext_concat c (i + 4) (Some (StrV ''curve'')) None"
  have f: "\<And>g. g = f" by (metis fault.exhaust)
  show ?case
  proof (cases "\<not> is_number label \<or> (stops \<noteq> [] \<and> fst (last stops) > the_number label)")
    case True
    then show ?thesis
      by (auto simp: Curve_stops.simps Let_def fail_def)
  next
    case ok_label: False
    then have a: "\<not> \<not> is_number label"
      and b: "\<not> (stops \<noteq> [] \<and> the_number label < fst (last stops))"
      by auto
    have ih1: "parseExpression ext (at_index rest 0) ?c4 h \<noteq> Inl f"
      using "4.IH"(1) [OF refl a b] by simp
    show ?thesis
    proof (cases "parseExpression ext (at_index rest 0) ?c4 h")
      case (Inl g)
      then show ?thesis using ih1 f [of g] by simp
    next
      case p: (Inr p)
      obtain r h1 where ph: "p = (r, h1)" by (cases p)
      show ?thesis
      proof (cases r)
        case None
        then show ?thesis
          using p ph ok_label by (auto simp: Curve_stops.simps Let_def)
      next
        case (Some parsed)
        have "Curve_stops ext c (i + 2) (stops @ [(the_number label, parsed)])
                   (case T of None \<Rightarrow> Some (type_of parsed) | Some x \<Rightarrow> Some x)
                   (drop 1 rest) h1 \<noteq> Inl f"
          using "4.IH"(2) [OF refl a b p [unfolded ph] refl Some] by simp
        then show ?thesis
          using p ph Some ok_label by (auto simp: Curve_stops.simps Let_def)
      qed
    qed
  qed
qed



section \<open>Serialising a parsed curve\<close>

lemma parse_interpolation_canonical:
  assumes "parse_interpolation (JArr (interpolation_json i0)) = Inr i"
  shows "i = i0"
proof (cases i0)
  case (CubicBezier cps)
  have "map the_number (map JNum cps) = cps"
    by (induction cps) auto
  then show ?thesis
    using assms CubicBezier
    by (auto simp: parse_interpolation_def at_index_def Let_def split: if_splits)
qed (use assms in \<open>auto simp: parse_interpolation_def at_index_def Let_def split: if_splits\<close>)

lemma parseExpression_undefined:
  "parseExpression ext JUndefined c h = fail c UndefinedInvalid [] h"
  by (simp add: parseExpression.simps)

lemma stops_alike_eq:
  "stops_alike R r' r \<Longrightarrow> (\<And>a b. R a b \<Longrightarrow> a = b) \<Longrightarrow> r' = r"
  by (induction R r' r rule: stops_alike.induct) auto

lemma Curve_stops_serialize:
  assumes "Curve_stops ext c i stops T rest h = Inr (Some (stops', T'), h')"
    and "\<And>v n h1 p h2. v \<in> set (stop_values rest) \<Longrightarrow>
           parseExpression ext v (ParsingContext_concat c n (Some (StrV ''curve'')) None) h1
             = Inr (Some p, h2)
           \<Longrightarrow> R (serialize p) v"
  shows "\<exists>rest'. concat (map stop_json stops') = concat (map stop_json stops) @ rest' \<and>
                 stops_alike R rest' rest"
  using assms
proof (induction "length rest" arbitrary: i stops T rest h rule: less_induct)
  case less
  show ?case
  proof (cases rest)
    case Nil
    then show ?thesis using less.prems(1) by (simp add: Curve_stops.simps)
  next
    case (Cons label vs)
    from less.prems(1) Cons obtain parsed h1 where
      num: "is_number label"
      and p: "parseExpression ext (at_index vs 0)
               (ParsingContext_concat c (i + 4) (Some (StrV ''curve'')) None) h = Inr (Some parsed, h1)"
      and rec: "Curve_stops ext c (i + 2) (stops @ [(the_number label, parsed)])
              (case T of Some t \<Rightarrow> Some t | None \<Rightarrow> Some (type_of parsed)) (drop 1 vs) h1
            = Inr (Some (stops', T'), h')"
      by (auto simp: Curve_stops.simps fail_def Let_def
            split: if_splits sum.splits prod.splits option.splits)
    have "vs \<noteq> []"
      using p by (auto simp: at_index_def parseExpression_undefined fail_def)
    then obtain v vs' where vs: "vs = v # vs'" by (cases vs) auto
    have ser: "R (serialize parsed) v"
      using less.prems(2) [of v "i + 4" h parsed h1] p Cons vs by (simp add: at_index_def)
    have lab: "JNum (the_number label) = label"
      using num by (cases label) auto
    have "length (drop 1 vs) < length rest" using Cons by simp
    from less.hyps [OF this rec] less.prems(2) Cons vs
    obtain rest'' where
      r: "concat (map stop_json stops')
          = concat (map stop_json (stops @ [(the_number label, parsed)])) @ rest''"
        "stops_alike R rest'' vs'"
      by auto
    show ?thesis
      by (rule exI [of _ "label # serialize parsed # rest''"]) (use r ser lab Cons vs in simp)
  qed
qed

text \<open>
  Claim C7, as amended. Let \<open>j = ["curve", interpolation, input, label_1, value_1, ...]\<close> be
  accepted by \<open>Curve.parse\<close>, with its interpolation array in the form that \<open>serialize\<close>
  writes (\<open>[name]\<close> for step and linear, \<open>[name, base]\<close> for exponential,
  \<open>[name, c0, c1, c2, c3]\<close> for cubic-bezier), and let \<open>serialize\<close> reproduce every
  sub-expression (the input and the value of each stop) up to a relation \<open>R\<close>, the encoding of
  literal values. Then \<open>serialize\<close> of the parsed curve is \<open>j\<close> up to \<open>R\<close> on the
  sub-expressions: \<open>"curve"\<close>, the same interpolation array, an input related to the input
  of \<open>j\<close>, the same labels, and values related to the values of \<open>j\<close>. When \<open>R\<close> is equality,
  it is \<open>j\<close>.
\<close>

theorem Curve_serialize_parse:
  assumes "Curve_parse ext (JStr ''curve'' # JArr (interpolation_json i0) # input # rest) c T h
             = Inr (Some e, h')"
    and "\<And>v n h1 p h2. v \<in> set (input # stop_values rest) \<Longrightarrow>
           parseExpression ext v (ParsingContext_concat c n (Some (StrV ''curve'')) None) h1
             = Inr (Some p, h2)
           \<Longrightarrow> R (serialize p) v"
  shows "(\<exists>input' rest'.
            serialize e = JArr (JStr ''curve'' # JArr (interpolation_json i0) # input' # rest') \<and>
            R input' input \<and> stops_alike R rest' rest) \<and>
         ((\<forall>a b. R a b \<longrightarrow> a = b) \<longrightarrow>
            serialize e = JArr (JStr ''curve'' # JArr (interpolation_json i0) # input # rest))"
proof -
  let ?args0 = "JStr ''curve'' # JArr (interpolation_json i0) # input # rest"
  from assms(1) obtain interpolation parsed h1 stops T' h2 where
    i: "parse_interpolation (JArr (interpolation_json i0)) = Inr interpolation"
    and p: "parseExpression ext input (ParsingContext_concat c 2 (Some (StrV ''curve'')) None) h
            = Inr (Some parsed, h1)"
    and st: "Curve_stops ext c 0 [] T rest h1 = Inr (Some (stops, Some T'), h2)"
    and e: "e = Curve (key c) T' interpolation parsed stops"
    by (auto simp: Curve_parse.simps [of ext ?args0 c T h] fail_def Let_def at_index_def
          split: if_splits sum.splits prod.splits option.splits)
  have i0: "interpolation = i0"
    using parse_interpolation_canonical [OF i] .
  have inp: "R (serialize parsed) input"
    using assms(2) [of input 2 h parsed h1] p by simp
  obtain rest' where r: "concat (map stop_json stops) = rest'" "stops_alike R rest' rest"
    using Curve_stops_serialize [OF st, of R] assms(2) by auto
  have 1: "\<exists>input' rest'.
            serialize e = JArr (JStr ''curve'' # JArr (interpolation_json i0) # input' # rest') \<and>
            R input' input \<and> stops_alike R rest' rest"
    using e i0 inp r by auto
  have 2: "serialize e = JArr (JStr ''curve'' # JArr (interpolation_json i0) # input # rest)"
    if eq: "\<forall>a b. R a b \<longrightarrow> a = b"
  proof -
    have "serialize parsed = input" using inp eq by blast
    moreover have "rest' = rest" using stops_alike_eq [OF r(2)] eq by blast
    ultimately show ?thesis using e i0 r(1) by simp
  qed
  show ?thesis using 1 2 by blast
qed

theorem Curve_serialize_parse_witness:
  "Curve_parse sample_parsers
     (JStr ''curve'' # JArr (interpolation_json (Exponential 2)) # JArr [JStr ''error'']
        # [JNum 0, JArr [JStr ''error''], JNum 1, JArr [JStr ''error'']])
     sample_root (Some NumberType) no_errors
   = Inr (Some (Curve [] NumberType (Exponential 2) (External ''[2]'' ErrorType (JArr [JStr ''error'']))
            [(0, External ''[4]'' ErrorType (JArr [JStr ''error''])),
             (1, External ''[6]'' ErrorType (JArr [JStr ''error'']))]), no_errors) \<and>
   serialize (Curve [] NumberType (Exponential 2) (External ''[2]'' ErrorType (JArr [JStr ''error'']))
            [(0, External ''[4]'' ErrorType (JArr [JStr ''error''])),
             (1, External ''[6]'' ErrorType (JArr [JStr ''error'']))])
   = JArr [JStr ''curve'', JArr [JStr ''exponential'', JNum 2], JArr [JStr ''error''],
           JNum 0, JArr [JStr ''error''], JNum 1, JArr [JStr ''error'']]"
proof -
  let ?rest = "[JNum 0, JArr [JStr ''error''], JNum 1, JArr [JStr ''error'']]"
  have p: "Curve_parse sample_parsers
     (JStr ''curve'' # JArr (interpolation_json (Exponential 2)) # JArr [JStr ''error''] # ?rest)
     sample_root (Some NumberType) no_errors
   = Inr (Some (Curve [] NumberType (Exponential 2) (External ''[2]'' ErrorType (JArr [JStr ''error'']))
            [(0, External ''[4]'' ErrorType (JArr [JStr ''error''])),
             (1, External ''[6]'' ErrorType (JArr [JStr ''error'']))]), no_errors)"
    by (simp add: sample_simps)
  have sub: "serialize p = v"
    if "v \<in> set (JArr [JStr ''error''] # stop_values ?rest)"
      and "parseExpression sample_parsers v
             (ParsingContext_concat sample_root n (Some (StrV ''curve'')) None) h1 = Inr (Some p, h2)"
    for v n h1 p h2
  proof -
    from that(1) have "v = JArr [JStr ''error'']" by simp
    with that(2) show ?thesis
      by (auto simp: parseExpression.simps checkSubtype.simps ParsingContext_concat_def
            ParsingContext_new_def sample_root_def sample_definitions_def sample_parsers_def Let_def)
  qed
  from Curve_serialize_parse [of sample_parsers "Exponential 2" "JArr [JStr ''error'']" ?rest
         sample_root "Some NumberType" no_errors _ no_errors "(=)", OF p sub] p
  show ?thesis
    by simp
qed

text \<open>
  Claim C7 as stated covers every array that parses. \<open>Curve.parse\<close> reads only the name of a
  step interpolation, so \<open>["step", 1]\<close> is accepted; \<open>serialize\<close> writes \<open>["step"]\<close>.
\<close>

theorem Curve_serialize_drops_interpolation_arguments:
  "parseExpression sample_parsers
     (JArr [JStr ''curve'', JArr [JStr ''step'', JNum 1], JArr [JStr ''error''],
            JNum 0, JArr [JStr ''error'']])
     sample_root no_errors
   = Inr (Some (Curve [] ErrorType Step (External ''[2]'' ErrorType (JArr [JStr ''error'']))
            [(0, External ''[4]'' ErrorType (JArr [JStr ''error'']))]), no_errors) \<and>
   serialize (Curve [] ErrorType Step (External ''[2]'' ErrorType (JArr [JStr ''error'']))
            [(0, External ''[4]'' ErrorType (JArr [JStr ''error'']))])
   = JArr [JStr ''curve'', JArr [JStr ''step''], JArr [JStr ''error''],
           JNum 0, JArr [JStr ''error'']] \<and>
   JArr [JStr ''curve'', JArr [JStr ''step''], JArr [JStr ''error''], JNum 0, JArr [JStr ''error'']]
   \<noteq> JArr [JStr ''curve'', JArr [JStr ''step'', JNum 1], JArr [JStr ''error''],
           JNum 0, JArr [JStr ''error'']]"
  by (simp add: sample_simps)

end
